theory Spec2Isabelle
  imports Complex_Main "HOL-Library.Sublist" "HOL-Library.Char_ord" "HOL-Library.List_Lexorder"
    "HOL-Library.AList" "HOL-Library.Multiset"
begin

section \<open>Data model\<close>

text \<open>
  The program is \<^verbatim>\<open>main.py\<close>: a client of a commit-listing REST interface. Its
  functions are embedded one by one. Values decoded from a response body are Python objects
  built from JSON; a decoded object (a \<^verbatim>\<open>dict\<close>) is an association list read with
  \<open>map_of\<close>. Numbers are kept as reals: the program only ever tests them for truth. A \<^verbatim>\<open>str\<close> is a \<open>string\<close>; suffix tests, containment of an
  ASCII text and the lexicographic order agree between code points and their UTF-8 bytes.
\<close>

datatype json =
    JNull
  | JBool bool
  | JNum real
  | JStr string
  | JArr "json list"
  | JObj "(string \<times> json) list"

text \<open>The exceptions that the program and the calls it makes can raise.\<close>

datatype error =
    RequestException string  \<comment> \<open>any request failure other than a status check, with its message\<close>
  | HTTPError int            \<comment> \<open>\<^verbatim>\<open>raise_for_status\<close>, with the status code\<close>
  | ValueError
  | OverflowError
  | KeyError string
  | TypeError
  | AttributeError
  | JSONDecodeError

text \<open>\<^verbatim>\<open>except requests.exceptions.RequestException\<close> catches that class and its subclasses.\<close>

fun is_RequestException :: "error \<Rightarrow> bool" where
  "is_RequestException (RequestException _) = True"
| "is_RequestException (HTTPError _) = True"
| "is_RequestException _ = False"

record datetime =
  year :: nat
  month :: nat
  day :: nat

record Config =
  GITHUB_TOKEN :: string
  GITHUB_REPO :: string
  GITHUB_REPO_OWNER :: string
  GITHUB_REPO_BRANCH :: string
  GITHUB_API_URL :: string
  DATE_RANGE :: "datetime \<times> datetime"
  MAX_RETRIES :: int
  RETRY_DELAY :: int
  RATE_LIMIT_DELAY :: int

text \<open>
  A GET request as \<^verbatim>\<open>requests.get(url, headers=headers, params=params)\<close> receives it.
  The URL is whatever object the caller passes (the commit URLs come out of decoded JSON);
  \<open>req_params = None\<close> is Python's \<^verbatim>\<open>params=None\<close>.
\<close>

record request =
  req_url :: json
  req_headers :: "(string \<times> string) list"
  req_params :: "(string \<times> json) list option"

text \<open>
  A response: its status code, its headers and its body as \<^verbatim>\<open>response.json()\<close> decodes
  it (\<open>None\<close> when the body is not JSON).
\<close>

record response =
  status_code :: int
  headers :: "(string \<times> string) list"
  json_body :: "json option"

text \<open>
  The world outside the program: a clock, read by \<^verbatim>\<open>time.time()\<close> and advanced by
  \<^verbatim>\<open>time.sleep\<close>, and the record of what the program has done to it so far, oldest
  first. A request itself takes no time. The server is any function of the world and of the
  request: it either raises in \<^verbatim>\<open>requests.get\<close> or answers.
\<close>

datatype event =
    Get request "error + response"
  | Sleep real

record world =
  clock :: real
  events :: "event list"

type_synonym server = "world \<Rightarrow> request \<Rightarrow> error + response"

section \<open>Python primitives\<close>

text \<open>\<^verbatim>\<open>obj[key]\<close> with a string key: only a dict accepts it.\<close>

fun py_getitem :: "json \<Rightarrow> string \<Rightarrow> error + json" where
  "py_getitem (JObj kvs) k = (case map_of kvs k of None \<Rightarrow> Inl (KeyError k) | Some v \<Rightarrow> Inr v)"
| "py_getitem _ k = Inl TypeError"

text \<open>
  \<^verbatim>\<open>for x in obj\<close>: a list gives its elements, a dict its keys, a string its characters;
  nothing else is iterable.
\<close>

fun py_iter :: "json \<Rightarrow> error + json list" where
  "py_iter (JArr xs) = Inr xs"
| "py_iter (JObj kvs) = Inr (map (\<lambda>kv. JStr (fst kv)) kvs)"
| "py_iter (JStr s) = Inr (map (\<lambda>c. JStr [c]) s)"
| "py_iter _ = Inl TypeError"

text \<open>Truth value of an object, as \<^verbatim>\<open>not data\<close> tests it.\<close>

fun py_truthy :: "json \<Rightarrow> bool" where
  "py_truthy JNull = False"
| "py_truthy (JBool b) = b"
| "py_truthy (JNum n) = (n \<noteq> 0)"
| "py_truthy (JStr s) = (s \<noteq> [])"
| "py_truthy (JArr xs) = (xs \<noteq> [])"
| "py_truthy (JObj kvs) = (kvs \<noteq> [])"

text \<open>\<^verbatim>\<open>s.endswith(ext)\<close> and \<^verbatim>\<open>sub in s\<close> on strings.\<close>

definition endswith :: "string \<Rightarrow> string \<Rightarrow> bool" where
  "endswith s ext \<longleftrightarrow> length ext \<le> length s \<and> drop (length s - length ext) s = ext"

fun str_contains :: "string \<Rightarrow> string \<Rightarrow> bool" where
  "str_contains sub [] = (sub = [])"
| "str_contains sub (c # cs) = (take (length sub) (c # cs) = sub \<or> str_contains sub cs)"

text \<open>
  \<^verbatim>\<open>int(s)\<close> on the value of a header. The HTTP library decodes a header as
  ISO-8859-1, so such a string holds code points below 256, one per \<open>char\<close>.
  Surrounding white space is dropped: the six ASCII white-space characters and, of the
  others, U+0085 and U+00A0. One sign is allowed, then decimal digits, single underscores
  allowed between two digits. More digits than the interpreter's limit (4300, leading
  zeros counted) are refused. \<open>None\<close> is \<^verbatim>\<open>ValueError\<close>.
\<close>

definition is_space :: "char \<Rightarrow> bool" where
  "is_space c \<longleftrightarrow> c \<in> set [CHR 0x09, CHR 0x0A, CHR 0x0B, CHR 0x0C, CHR 0x0D, CHR 0x20,
     CHR 0x85, CHR 0xA0]"

definition is_digit :: "char \<Rightarrow> bool" where
  "is_digit c \<longleftrightarrow> CHR ''0'' \<le> c \<and> c \<le> CHR ''9''"

definition digit_value :: "char \<Rightarrow> int" where
  "digit_value c = int (of_char c) - 48"

definition strip :: "string \<Rightarrow> string" where
  "strip s = rev (dropWhile is_space (rev (dropWhile is_space s)))"

fun parse_digits :: "string \<Rightarrow> int \<Rightarrow> int option" where
  "parse_digits [] acc = Some acc"
| "parse_digits (c # cs) acc =
     (if is_digit c then parse_digits cs (10 * acc + digit_value c)
      else if c = CHR ''_'' \<and> cs \<noteq> [] \<and> is_digit (hd cs) then parse_digits cs acc
      else None)"

definition parse_unsigned :: "string \<Rightarrow> int option" where
  "parse_unsigned s =
     (case s of
        [] \<Rightarrow> None
      | c # _ \<Rightarrow>
          if is_digit c \<and> length (filter is_digit s) \<le> 4300 then parse_digits s 0 else None)"

definition py_int :: "string \<Rightarrow> int option" where
  "py_int s =
     (case strip s of
        [] \<Rightarrow> None
      | c # r \<Rightarrow>
          if c = CHR ''-'' then map_option uminus (parse_unsigned r)
          else if c = CHR ''+'' then parse_unsigned r
          else parse_unsigned (c # r))"

text \<open>
  The headers of a response are a case-insensitive dictionary: \<^verbatim>\<open>name in headers\<close> and
  \<^verbatim>\<open>headers.get(name, default)\<close> compare lower-cased names.
\<close>

definition ascii_lower :: "char \<Rightarrow> char" where
  "ascii_lower c =
     (if CHR ''A'' \<le> c \<and> c \<le> CHR ''Z'' then char_of (of_char c + (32::nat)) else c)"

definition header_get :: "(string \<times> string) list \<Rightarrow> string \<Rightarrow> string option" where
  "header_get hs name =
     map_of (map (\<lambda>kv. (map ascii_lower (fst kv), snd kv)) hs) (map ascii_lower name)"

text \<open>
  \<^verbatim>\<open>time.sleep(secs)\<close>. The argument is a Python number, an \<^verbatim>\<open>int\<close> or a
  \<^verbatim>\<open>float\<close>. It is first converted to nanoseconds in a signed 64-bit integer, a float
  rounded away from zero: what does not fit raises \<^verbatim>\<open>OverflowError\<close>. A negative
  length then raises \<^verbatim>\<open>ValueError\<close>. Floats are taken as exact reals.
\<close>

datatype number = PyInt int | PyFloat real

fun seconds :: "number \<Rightarrow> real" where
  "seconds (PyInt n) = of_int n"
| "seconds (PyFloat d) = d"

fun nanoseconds :: "number \<Rightarrow> int" where
  "nanoseconds (PyInt n) = n * 10 ^ 9"
| "nanoseconds (PyFloat d) = (if 0 \<le> d then \<lceil>d * 10 ^ 9\<rceil> else \<lfloor>d * 10 ^ 9\<rfloor>)"

definition py_sleep :: "number \<Rightarrow> world \<Rightarrow> (error + unit) \<times> world" where
  "py_sleep secs w =
     (if nanoseconds secs < - (2 ^ 63) \<or> 2 ^ 63 \<le> nanoseconds secs then (Inl OverflowError, w)
      else if nanoseconds secs < 0 then (Inl ValueError, w)
      else (Inr (), w\<lparr>clock := clock w + seconds secs,
                        events := events w @ [Sleep (seconds secs)]\<rparr>))"

text \<open>
  Converting an \<^verbatim>\<open>int\<close> to a \<^verbatim>\<open>float\<close>, as \<^verbatim>\<open>int - float\<close> does first: an integer
  that rounds to \<open>2 ^ 1024\<close> or beyond raises \<^verbatim>\<open>OverflowError\<close>.
\<close>

definition float_of_int :: "int \<Rightarrow> real option" where
  "float_of_int n = (if \<bar>n\<bar> < 2 ^ 1024 - 2 ^ 970 then Some (of_int n) else None)"

text \<open>\<^verbatim>\<open>response.raise_for_status()\<close>: an error for the status codes from 400 to 599.\<close>

definition raise_for_status :: "response \<Rightarrow> error + unit" where
  "raise_for_status r =
     (if 400 \<le> status_code r \<and> status_code r < 600 then Inl (HTTPError (status_code r))
      else Inr ())"

text \<open>\<^verbatim>\<open>requests.get\<close>: the server decides the outcome; the world records it.\<close>

definition requests_get :: "server \<Rightarrow> request \<Rightarrow> world \<Rightarrow> (error + response) \<times> world" where
  "requests_get srv rq w = (srv w rq, w\<lparr>events := events w @ [Get rq (srv w rq)]\<rparr>)"

text \<open>\<^verbatim>\<open>dt.strftime('%Y-%m-%d')\<close>, for the four-digit years the configuration holds.\<close>

definition digit_char :: "nat \<Rightarrow> char" where
  "digit_char n = char_of (48 + n mod 10)"

definition strftime_Ymd :: "datetime \<Rightarrow> string" where
  "strftime_Ymd d =
     [digit_char (year d div 1000), digit_char (year d div 100), digit_char (year d div 10),
      digit_char (year d)] @ ''-'' @
     [digit_char (month d div 10), digit_char (month d)] @ ''-'' @
     [digit_char (day d div 10), digit_char (day d)]"

section \<open>The HTTP request executor\<close>

text \<open>\<^verbatim>\<open>handle_rate_limit(response)\<close>.\<close>

definition handle_rate_limit :: "response \<Rightarrow> world \<Rightarrow> (error + unit) \<times> world" where
  "handle_rate_limit response w =
     (if status_code response = 403 \<and> header_get (headers response) ''X-RateLimit-Remaining'' \<noteq> None
      then
        (case (case header_get (headers response) ''X-RateLimit-Reset'' of
                 None \<Rightarrow> Some 0 | Some s \<Rightarrow> py_int s) of
           None \<Rightarrow> (Inl ValueError, w)
         | Some reset_time \<Rightarrow>
             (case float_of_int reset_time of
                None \<Rightarrow> (Inl OverflowError, w)
              | Some reset \<Rightarrow>
                  (let wait_time = max (reset - clock w) 0
                   in if wait_time > 0 then py_sleep (PyFloat wait_time) w else (Inr (), w))))
      else (Inr (), w))"

text \<open>
  The body of the \<^verbatim>\<open>try\<close> block of \<^verbatim>\<open>make_request\<close>: one attempt. It returns the
  response, or the exception raised inside the block.
\<close>

definition make_request_try :: "server \<Rightarrow> request \<Rightarrow> world \<Rightarrow> (error + response) \<times> world" where
  "make_request_try srv rq w =
     (case requests_get srv rq w of
        (Inl e, w1) \<Rightarrow> (Inl e, w1)
      | (Inr response, w1) \<Rightarrow>
          (case handle_rate_limit response w1 of
             (Inl e, w2) \<Rightarrow> (Inl e, w2)
           | (Inr _, w2) \<Rightarrow>
               (case raise_for_status response of
                  Inl e \<Rightarrow> (Inl e, w2)
                | Inr _ \<Rightarrow> (Inr response, w2))))"

text \<open>
  \<^verbatim>\<open>for attempt in range(max_retries)\<close>, from the index \<open>attempt\<close> on. An exception that
  is not a \<^verbatim>\<open>RequestException\<close> passes through the \<^verbatim>\<open>except\<close> clause. When the range is
  exhausted the function falls off its end and returns \<^verbatim>\<open>None\<close>.
\<close>

function make_request_loop ::
  "server \<Rightarrow> request \<Rightarrow> int \<Rightarrow> int \<Rightarrow> world \<Rightarrow> (error + response option) \<times> world" where
  "make_request_loop srv rq max_retries attempt w =
     (if attempt < max_retries then
        (case make_request_try srv rq w of
           (Inr response, w1) \<Rightarrow> (Inr (Some response), w1)
         | (Inl e, w1) \<Rightarrow>
             if is_RequestException e then
               (if attempt = max_retries - 1 then (Inl e, w1)
                else
                  (case py_sleep (PyInt (2 ^ nat attempt)) w1 of
                     (Inl e', w2) \<Rightarrow> (Inl e', w2)
                   | (Inr _, w2) \<Rightarrow> make_request_loop srv rq max_retries (attempt + 1) w2))
             else (Inl e, w1))
      else (Inr None, w))"
  by pat_completeness auto
termination
  by (relation "measure (\<lambda>(srv, rq, max_retries, attempt, w). nat (max_retries - attempt))") auto

definition make_request :: "server \<Rightarrow> request \<Rightarrow> int \<Rightarrow> world \<Rightarrow> (error + response option) \<times> world" where
  "make_request srv rq max_retries w = make_request_loop srv rq max_retries 0 w"

declare make_request_loop.simps [simp del]

section \<open>The scripts\<close>

text \<open>
  The comprehension of \<^verbatim>\<open>get_commit_urls\<close>:
  \<^verbatim>\<open>[commit['url'] for commit in data if commit['author']['login'] == owner]\<close>,
  over the elements that iterating \<^verbatim>\<open>data\<close> gives.
\<close>

fun owner_urls :: "string \<Rightarrow> json list \<Rightarrow> error + json list" where
  "owner_urls owner [] = Inr []"
| "owner_urls owner (commit # rest) =
     (case py_getitem commit ''author'' of
        Inl e \<Rightarrow> Inl e
      | Inr author \<Rightarrow>
          (case py_getitem author ''login'' of
             Inl e \<Rightarrow> Inl e
           | Inr login \<Rightarrow>
               if login = JStr owner then
                 (case py_getitem commit ''url'' of
                    Inl e \<Rightarrow> Inl e
                  | Inr u \<Rightarrow>
                      (case owner_urls owner rest of
                         Inl e \<Rightarrow> Inl e
                       | Inr us \<Rightarrow> Inr (u # us)))
               else owner_urls owner rest))"

text \<open>
  The \<^verbatim>\<open>while True\<close> loop of \<^verbatim>\<open>get_commit_urls\<close>, with the variables it updates:
  the parameter dictionary, the URLs so far and the page counter. The loop has no bound: where
  the server never sends an empty page the value is \<open>None\<close>.
\<close>

partial_function (option) get_commit_urls_loop ::
  "server \<Rightarrow> Config \<Rightarrow> (string \<times> string) list \<Rightarrow> (string \<times> json) list \<Rightarrow> json list \<Rightarrow> int
     \<Rightarrow> world \<Rightarrow> ((error + json list) \<times> world) option" where
  "get_commit_urls_loop srv config hdrs params urls page w =
     (case make_request srv
             \<lparr>req_url = JStr (GITHUB_API_URL config), req_headers = hdrs,
              req_params = Some (AList.update ''page'' (JNum (of_int page)) params)\<rparr> 3 w of
        (Inl e, w1) \<Rightarrow> Some (Inl e, w1)
      | (Inr None, w1) \<Rightarrow> Some (Inl AttributeError, w1)
      | (Inr (Some response), w1) \<Rightarrow>
          (case json_body response of
             None \<Rightarrow> Some (Inl JSONDecodeError, w1)
           | Some data \<Rightarrow>
               if \<not> py_truthy data then Some (Inr urls, w1)
               else
                 (case py_iter data of
                    Inl e \<Rightarrow> Some (Inl e, w1)
                  | Inr commits \<Rightarrow>
                      (case owner_urls (GITHUB_REPO_OWNER config) commits of
                         Inl e \<Rightarrow> Some (Inl e, w1)
                       | Inr us \<Rightarrow>
                           (case py_sleep (PyInt (RATE_LIMIT_DELAY config)) w1 of
                              (Inl e, w2) \<Rightarrow> Some (Inl e, w2)
                            | (Inr _, w2) \<Rightarrow>
                                get_commit_urls_loop srv config hdrs
                                  (AList.update ''page'' (JNum (of_int page)) params)
                                  (urls @ us) (page + 1) w2)))))"

declare get_commit_urls_loop.simps [code]

definition get_commit_urls :: "server \<Rightarrow> Config \<Rightarrow> world \<Rightarrow> ((error + json list) \<times> world) option" where
  "get_commit_urls srv config w =
     get_commit_urls_loop srv config
       [(''Authorization'', ''Bearer '' @ GITHUB_TOKEN config)]
       [(''since'', JStr (strftime_Ymd (fst (DATE_RANGE config)))),
        (''until'', JStr (strftime_Ymd (snd (DATE_RANGE config)))),
        (''per_page'', JNum 100)]
       [] 1 w"

text \<open>
  The \<^verbatim>\<open>for file in files\<close> loop of \<^verbatim>\<open>get_commit_files\<close>, with the list
  \<^verbatim>\<open>filenames\<close> it appends to. An object without \<^verbatim>\<open>endswith\<close> raises
  \<^verbatim>\<open>AttributeError\<close>.
\<close>

fun collect_filenames :: "json list \<Rightarrow> string list \<Rightarrow> error + string list" where
  "collect_filenames [] filenames = Inr filenames"
| "collect_filenames (file # files) filenames =
     (case py_getitem file ''filename'' of
        Inl e \<Rightarrow> Inl e
      | Inr (JStr filename) \<Rightarrow>
          if list_ex (\<lambda>ext. endswith filename ext) [''.pyc'', ''.pyo'', ''.pdf'']
             \<or> str_contains ''old'' filename
          then collect_filenames files filenames
          else if filename \<notin> set filenames then collect_filenames files (filenames @ [filename])
          else collect_filenames files filenames
      | Inr _ \<Rightarrow> Inl AttributeError)"

definition get_commit_files :: "server \<Rightarrow> json \<Rightarrow> Config \<Rightarrow> world \<Rightarrow> (error + string list) \<times> world" where
  "get_commit_files srv url config w =
     (case make_request srv
             \<lparr>req_url = url, req_headers = [(''Authorization'', ''Bearer '' @ GITHUB_TOKEN config)],
              req_params = None\<rparr> 3 w of
        (Inl e, w1) \<Rightarrow> (Inl e, w1)
      | (Inr None, w1) \<Rightarrow> (Inl AttributeError, w1)
      | (Inr (Some response), w1) \<Rightarrow>
          (case json_body response of
             None \<Rightarrow> (Inl JSONDecodeError, w1)
           | Some payload \<Rightarrow>
               (case py_getitem payload ''files'' of
                  Inl e \<Rightarrow> (Inl e, w1)
                | Inr files \<Rightarrow>
                    (case py_iter files of
                       Inl e \<Rightarrow> (Inl e, w1)
                     | Inr fs \<Rightarrow> (collect_filenames fs [], w1)))))"

text \<open>
  The \<^verbatim>\<open>for url in urls\<close> loop of \<^verbatim>\<open>get_commits_files\<close>, with the set \<^verbatim>\<open>files\<close>
  it updates, and the function itself, which sorts the set at the end.
\<close>

fun get_commits_files_loop ::
  "server \<Rightarrow> Config \<Rightarrow> json list \<Rightarrow> string set \<Rightarrow> world \<Rightarrow> (error + string set) \<times> world" where
  "get_commits_files_loop srv config [] files w = (Inr files, w)"
| "get_commits_files_loop srv config (url # urls) files w =
     (case get_commit_files srv url config w of
        (Inl e, w1) \<Rightarrow> (Inl e, w1)
      | (Inr fs, w1) \<Rightarrow>
          (case py_sleep (PyInt (RATE_LIMIT_DELAY config)) w1 of
             (Inl e, w2) \<Rightarrow> (Inl e, w2)
           | (Inr _, w2) \<Rightarrow> get_commits_files_loop srv config urls (files \<union> set fs) w2))"

definition get_commits_files ::
  "server \<Rightarrow> json list \<Rightarrow> Config \<Rightarrow> world \<Rightarrow> (error + string list) \<times> world" where
  "get_commits_files srv urls config w =
     (case get_commits_files_loop srv config urls {} w of
        (Inl e, w1) \<Rightarrow> (Inl e, w1)
      | (Inr files, w1) \<Rightarrow> (Inr (sorted_list_of_set files), w1))"

text \<open>
  The pipeline of \<^verbatim>\<open>main\<close>, from the loaded configuration to the list handed to
  \<^verbatim>\<open>write_files_to_file\<close>: the check of the required fields, then the two calls.
\<close>

definition pipeline :: "server \<Rightarrow> Config \<Rightarrow> world \<Rightarrow> ((error + string list) \<times> world) option" where
  "pipeline srv config w =
     (if GITHUB_TOKEN config = [] \<or> GITHUB_REPO config = [] \<or> GITHUB_REPO_OWNER config = []
      then Some (Inl ValueError, w)
      else
        (case get_commit_urls srv config w of
           None \<Rightarrow> None
         | Some (Inl e, w1) \<Rightarrow> Some (Inl e, w1)
         | Some (Inr commit_urls, w1) \<Rightarrow> Some (get_commits_files srv commit_urls config w1)))"

section \<open>What the specification says\<close>

text \<open>
  A blocked path, in the specification's words: it ends with one of the blocked suffixes or
  contains the marker text. Suffix and containment are the library's \<open>suffix\<close> and
  \<open>sublist\<close>.
\<close>

definition blocked :: "string \<Rightarrow> bool" where
  "blocked s \<longleftrightarrow> suffix ''.pyc'' s \<or> suffix ''.pyo'' s \<or> suffix ''.pdf'' s \<or> sublist ''old'' s"

text \<open>
  Each element once, in the order of first occurrence: the head is kept and every later
  occurrence of it is dropped.
\<close>

fun first_occurrences :: "'a list \<Rightarrow> 'a list" where
  "first_occurrences [] = []"
| "first_occurrences (x # xs) = x # first_occurrences (filter (\<lambda>y. y \<noteq> x) xs)"


text \<open>The commit records that the answers in a record of events carry.\<close>

fun commit_records :: "event list \<Rightarrow> json list" where
  "commit_records [] = []"
| "commit_records (Get rq (Inr r) # evs) =
     (case json_body r of Some (JArr cs) \<Rightarrow> cs @ commit_records evs | _ \<Rightarrow> commit_records evs)"
| "commit_records (_ # evs) = commit_records evs"

text \<open>
  A URL comes from a commit record of the owner, among the records that a record of events
  carries: some record has that URL and an author whose login is the owner's.
\<close>

definition from_owner :: "string \<Rightarrow> event list \<Rightarrow> json \<Rightarrow> bool" where
  "from_owner owner evs u \<longleftrightarrow>
     (\<exists>c\<in>set (commit_records evs). py_getitem c ''url'' = Inr u
        \<and> (\<exists>a. py_getitem c ''author'' = Inr a \<and> py_getitem a ''login'' = Inr (JStr owner)))"

text \<open>
  The invariant of the enumeration loop: every URL of a returned list was in the list
  already or comes from a record of the owner received since.
\<close>

definition owner_invariant ::
  "Config \<Rightarrow> json list \<Rightarrow> world \<Rightarrow> (error + json list) \<times> world \<Rightarrow> bool" where
  "owner_invariant config urls w y \<longleftrightarrow>
     (\<forall>out w'. y = (Inr out, w') \<longrightarrow>
       (\<exists>new. events w' = events w @ new
          \<and> (\<forall>u\<in>set out. u \<in> set urls \<or> from_owner (GITHUB_REPO_OWNER config) new u)))"


section \<open>Example inputs\<close>

definition example_config :: Config where
  "example_config =
     \<lparr>GITHUB_TOKEN = ''t'', GITHUB_REPO = ''r'', GITHUB_REPO_OWNER = ''alice'',
      GITHUB_REPO_BRANCH = ''main'', GITHUB_API_URL = ''https://api/commits'',
      DATE_RANGE = (\<lparr>year = 2024, month = 3, day = 12\<rparr>, \<lparr>year = 2026, month = 11, day = 4\<rparr>),
      MAX_RETRIES = 3, RETRY_DELAY = 2, RATE_LIMIT_DELAY = 1\<rparr>"

definition example_world :: world where
  "example_world = \<lparr>clock = 100, events = []\<rparr>"

definition ok_response :: "json \<Rightarrow> response" where
  "ok_response j = \<lparr>status_code = 200, headers = [], json_body = Some j\<rparr>"

definition commit_record :: "string \<Rightarrow> json \<Rightarrow> json" where
  "commit_record u a = JObj [(''url'', JStr u), (''author'', a)]"

definition author :: "string \<Rightarrow> json" where
  "author a = JObj [(''login'', JStr a)]"

definition commit_detail :: "string list \<Rightarrow> json" where
  "commit_detail fs = JObj [(''files'', JArr (map (\<lambda>f. JObj [(''filename'', JStr f)]) fs))]"

text \<open>
  A server with one page of three commits, two of them by the owner, and the details of
  those two.
\<close>

definition example_server :: server where
  "example_server w rq =
     (if req_url rq = JStr ''https://api/commits'' then
        (if map_option (\<lambda>ps. map_of ps ''page'') (req_params rq) = Some (Some (JNum 1))
         then Inr (ok_response (JArr [commit_record ''u1'' (author ''alice''),
                                      commit_record ''u2'' (author ''bob''),
                                      commit_record ''u3'' (author ''alice'')]))
         else Inr (ok_response (JArr [])))
      else if req_url rq = JStr ''u1'' then Inr (ok_response (commit_detail [''a.py'', ''b.pyc'']))
      else if req_url rq = JStr ''u3'' then
        Inr (ok_response (commit_detail
          [''a.py'', ''notes.pdf'', ''c.txt'', ''src/old_module.py'', ''a.py'', ''b.txt'', ''c.txt'']))
      else Inl (RequestException ''no route''))"







text \<open>A server whose page holds a commit with no author.\<close>

definition null_author_server :: server where
  "null_author_server w rq =
     Inr (ok_response (JArr [commit_record ''u1'' (author ''alice''), commit_record ''u2'' JNull]))"

text \<open>The request that \<^verbatim>\<open>get_commit_urls\<close> sends for a page under the example configuration.\<close>

definition example_page_request :: "int \<Rightarrow> request" where
  "example_page_request page =
     \<lparr>req_url = JStr ''https://api/commits'',
      req_headers = [(''Authorization'', ''Bearer t'')],
      req_params = Some [(''since'', JStr ''2024-03-12''), (''until'', JStr ''2026-11-04''),
                         (''per_page'', JNum 100), (''page'', JNum (of_int page))]\<rparr>"

section \<open>Strings and the file filter\<close>

lemma endswith_suffix: "endswith s ext \<longleftrightarrow> suffix ext s"
proof
  assume "endswith s ext"
  then have "s = take (length s - length ext) s @ ext"
    by (metis append_take_drop_id endswith_def)
  then show "suffix ext s" by (metis suffixI)
next
  assume "suffix ext s"
  then obtain p where "s = p @ ext" by (auto simp: suffix_def)
  then show "endswith s ext" by (simp add: endswith_def)
qed

lemma str_contains_sublist: "str_contains sub s \<longleftrightarrow> sublist sub s"
proof (induction s)
  case Nil
  then show ?case by auto
next
  case (Cons c cs)
  have "take (length sub) (c # cs) = sub \<longleftrightarrow> prefix sub (c # cs)"
    by (metis append_eq_conv_conj prefix_def)
  then show ?case using Cons by (simp add: sublist_Cons_right)
qed

lemmas excluded_blocked = blocked_def endswith_suffix str_contains_sublist

lemma first_occurrences_set: "set (first_occurrences xs) = set xs"
  by (induction xs rule: first_occurrences.induct) auto

lemma first_occurrences_distinct: "distinct (first_occurrences xs)"
  by (induction xs rule: first_occurrences.induct) (auto simp: first_occurrences_set)

text \<open>
  The loop, started with the list \<open>acc\<close>, appends the first occurrences of the names that
  are neither blocked nor in \<open>acc\<close> already.
\<close>

lemma collect_filenames_spec:
  "map (\<lambda>f. py_getitem f ''filename'') files = map (\<lambda>s. Inr (JStr s)) names \<Longrightarrow>
   collect_filenames files acc =
     Inr (acc @ first_occurrences (filter (\<lambda>s. \<not> blocked s \<and> s \<notin> set acc) names))"
proof (induction files arbitrary: acc names)
  case Nil
  then show ?case by simp
next
  case (Cons f fs)
  then obtain n ns where names: "names = n # ns" by (cases names) auto
  with Cons.prems have hd: "py_getitem f ''filename'' = Inr (JStr n)"
    and tl: "map (\<lambda>f. py_getitem f ''filename'') fs = map (\<lambda>s. Inr (JStr s)) ns"
    by simp_all
  have filt: "filter (\<lambda>y. y \<noteq> n) (filter (\<lambda>s. \<not> blocked s \<and> s \<notin> set acc) ns) =
      filter (\<lambda>s. \<not> blocked s \<and> s \<notin> set (acc @ [n])) ns"
    by (induction ns) auto
  show ?case
  proof (cases "blocked n \<or> n \<in> set acc")
    case True
    then show ?thesis
      using Cons.IH[OF tl, of acc] hd names by (auto simp: excluded_blocked)
  next
    case False
    then show ?thesis
      using Cons.IH[OF tl, of "acc @ [n]"] hd names filt by (simp add: excluded_blocked)
  qed
qed

lemma collect_filenames_not_blocked:
  "collect_filenames files acc = Inr out \<Longrightarrow> p \<in> set out \<Longrightarrow> p \<in> set acc \<or> \<not> blocked p"
proof (induction files arbitrary: acc)
  case Nil
  then show ?case by simp
next
  case (Cons f fs)
  from Cons.prems(1) obtain n where n: "py_getitem f ''filename'' = Inr (JStr n)"
    by (auto split: sum.splits json.splits)
  show ?case
  proof (cases "blocked n \<or> n \<in> set acc")
    case True
    with Cons.prems n have "collect_filenames fs acc = Inr out"
      by (auto simp: excluded_blocked split: if_splits)
    from Cons.IH[OF this Cons.prems(2)] show ?thesis .
  next
    case False
    with Cons.prems n have "collect_filenames fs (acc @ [n]) = Inr out"
      by (simp add: excluded_blocked)
    from Cons.IH[OF this Cons.prems(2)] False show ?thesis by auto
  qed
qed

lemmas example_defs = example_config_def example_world_def ok_response_def commit_record_def
  author_def commit_detail_def example_server_def

lemmas executor_defs = make_request_def make_request_loop.simps make_request_try_def
  requests_get_def handle_rate_limit_def raise_for_status_def

text \<open>
  Claim C1. Whatever the server answers, no path in the list that \<^verbatim>\<open>get_commit_files\<close>
  returns ends with \<^verbatim>\<open>.pyc\<close>, \<^verbatim>\<open>.pyo\<close> or \<^verbatim>\<open>.pdf\<close>, and none contains the
  text \<^verbatim>\<open>old\<close>.
\<close>

theorem get_commit_files_never_blocked:
  "fst (get_commit_files srv url config w) = Inr out \<Longrightarrow> p \<in> set out \<Longrightarrow>
   \<not> suffix ''.pyc'' p \<and> \<not> suffix ''.pyo'' p \<and> \<not> suffix ''.pdf'' p \<and> \<not> sublist ''old'' p"
proof -
  assume res: "fst (get_commit_files srv url config w) = Inr out" and p: "p \<in> set out"
  from res obtain fl where "collect_filenames fl [] = Inr out"
    by (auto simp: get_commit_files_def split: prod.splits sum.splits option.splits)
  from collect_filenames_not_blocked[OF this p] show ?thesis
    by (simp add: blocked_def)
qed

theorem get_commit_files_never_blocked_witness:
  "fst (get_commit_files example_server (JStr ''u3'') example_config example_world)
     = Inr [''a.py'', ''c.txt'', ''b.txt'']
   \<and> ''c.txt'' \<in> set [''a.py'', ''c.txt'', ''b.txt'']
   \<and> \<not> suffix ''.pyc'' ''c.txt'' \<and> \<not> suffix ''.pyo'' ''c.txt'' \<and> \<not> suffix ''.pdf'' ''c.txt''
   \<and> \<not> sublist ''old'' ''c.txt''"
proof -
  have run: "fst (get_commit_files example_server (JStr ''u3'') example_config example_world)
     = Inr [''a.py'', ''c.txt'', ''b.txt'']"
    by (simp add: get_commit_files_def executor_defs example_defs endswith_def)
  have mem: "''c.txt'' \<in> set [''a.py'', ''c.txt'', ''b.txt'']" by simp
  from get_commit_files_never_blocked[OF run mem] run mem show ?thesis by blast
qed

text \<open>
  Claim C7. When the commit detail is an object whose \<^verbatim>\<open>files\<close> array holds entries with
  the filename strings \<open>names\<close>, \<^verbatim>\<open>get_commit_files\<close> returns the names that are not
  blocked, each exactly once, in the order of their first occurrence.
\<close>

theorem get_commit_files_first_occurrences:
  assumes "fst (make_request srv
             \<lparr>req_url = url, req_headers = [(''Authorization'', ''Bearer '' @ GITHUB_TOKEN config)],
              req_params = None\<rparr> 3 w) = Inr (Some response)"
    and "json_body response = Some payload"
    and "py_getitem payload ''files'' = Inr (JArr files)"
    and "map (\<lambda>f. py_getitem f ''filename'') files = map (\<lambda>s. Inr (JStr s)) names"
  shows "fst (get_commit_files srv url config w)
           = Inr (first_occurrences (filter (\<lambda>s. \<not> blocked s) names))
         \<and> distinct (first_occurrences (filter (\<lambda>s. \<not> blocked s) names))
         \<and> set (first_occurrences (filter (\<lambda>s. \<not> blocked s) names)) = {s \<in> set names. \<not> blocked s}"
proof -
  have "collect_filenames files [] = Inr (first_occurrences (filter (\<lambda>s. \<not> blocked s) names))"
    using collect_filenames_spec[OF assms(4), of "[]"] by simp
  with assms(1-3) have "fst (get_commit_files srv url config w)
           = Inr (first_occurrences (filter (\<lambda>s. \<not> blocked s) names))"
    by (auto simp: get_commit_files_def split: prod.splits)
  then show ?thesis
    by (simp add: first_occurrences_distinct first_occurrences_set)
qed

theorem get_commit_files_first_occurrences_witness:
  "fst (get_commit_files example_server (JStr ''u3'') example_config example_world)
     = Inr [''a.py'', ''c.txt'', ''b.txt'']
   \<and> distinct [''a.py'', ''c.txt'', ''b.txt'']
   \<and> set [''a.py'', ''c.txt'', ''b.txt''] =
       {s \<in> set [''a.py'', ''notes.pdf'', ''c.txt'', ''src/old_module.py'', ''a.py'', ''b.txt'', ''c.txt''].
          \<not> blocked s}"
proof -
  let ?names = "[''a.py'', ''notes.pdf'', ''c.txt'', ''src/old_module.py'', ''a.py'', ''b.txt'', ''c.txt'']"
  let ?files = "map (\<lambda>f. JObj [(''filename'', JStr f)]) ?names"
  have req: "fst (make_request example_server
             \<lparr>req_url = JStr ''u3'',
              req_headers = [(''Authorization'', ''Bearer '' @ GITHUB_TOKEN example_config)],
              req_params = None\<rparr> 3 example_world) = Inr (Some (ok_response (commit_detail ?names)))"
    by (simp add: executor_defs example_defs)
  have body: "json_body (ok_response (commit_detail ?names)) = Some (commit_detail ?names)"
    by (simp add: ok_response_def)
  have files: "py_getitem (commit_detail ?names) ''files'' = Inr (JArr ?files)"
    by (simp add: commit_detail_def)
  have names: "map (\<lambda>f. py_getitem f ''filename'') ?files = map (\<lambda>s. Inr (JStr s)) ?names"
    by simp
  have out: "first_occurrences (filter (\<lambda>s. \<not> blocked s) ?names) = [''a.py'', ''c.txt'', ''b.txt'']"
    by code_simp
  from get_commit_files_first_occurrences[OF req body files names] show ?thesis
    unfolding out .
qed

section \<open>The executor\<close>

text \<open>
  Claim C8. With \<^verbatim>\<open>max_retries = 0\<close> the executor sends no request, raises nothing and
  returns \<^verbatim>\<open>None\<close>: neither a response nor an error. The world is left as it was.
\<close>

theorem make_request_zero_retries: "make_request srv rq 0 w = (Inr None, w)"
  by (simp add: make_request_def make_request_loop.simps)

theorem make_request_zero_retries_witness:
  "make_request example_server \<lparr>req_url = JStr ''u1'', req_headers = [], req_params = None\<rparr> 0 example_world
     = (Inr None, example_world) \<and> events example_world = []"
  using make_request_zero_retries[of example_server "\<lparr>req_url = JStr ''u1'', req_headers = [], req_params = None\<rparr>" example_world]
  by (simp add: example_world_def)


text \<open>The primitives at the edges of their domains.\<close>

lemma py_int_examples:
  "py_int [CHR 0x1C, CHR ''1'', CHR ''0'', CHR ''5''] = None"
  "py_int [CHR 0xA0, CHR ''1'', CHR ''0'', CHR ''5'', CHR 0x85] = Some 105"
  "py_int '' +1_05 '' = Some 105"
  "py_int ''1__05'' = None"
  "py_int ''- 5'' = None"
  "py_int ''0105'' = Some 105"
  by (simp_all add: py_int_def strip_def is_space_def parse_unsigned_def is_digit_def
      digit_value_def)

lemma parse_unsigned_digit_limit:
  "4300 < length (filter is_digit s) \<Longrightarrow> parse_unsigned s = None"
  by (auto simp: parse_unsigned_def split: list.splits)

lemma py_sleep_examples:
  "py_sleep (PyInt (2 ^ 34)) w = (Inl OverflowError, w)"
  "py_sleep (PyInt 9223372037) w = (Inl OverflowError, w)"
  "py_sleep (PyInt (- 1)) w = (Inl ValueError, w)"
  "py_sleep (PyFloat 1700000000000) w = (Inl OverflowError, w)"
  by (simp_all add: py_sleep_def)

text \<open>
  A reset time given in milliseconds lies too far ahead for \<^verbatim>\<open>time.sleep\<close>: the
  rate-limit handler raises at once, without waiting.
\<close>

lemma handle_rate_limit_milliseconds:
  "handle_rate_limit
     \<lparr>status_code = 403,
      headers = [(''X-RateLimit-Remaining'', ''0''), (''X-RateLimit-Reset'', ''1730000000000'')],
      json_body = None\<rparr>
     \<lparr>clock = 1730000000, events = evs\<rparr>
   = (Inl OverflowError, \<lparr>clock = 1730000000, events = evs\<rparr>)"
  by (simp add: handle_rate_limit_def header_get_def ascii_lower_def py_int_def strip_def
      is_space_def parse_unsigned_def is_digit_def digit_value_def float_of_int_def py_sleep_def)

lemma py_sleep_int:
  "0 \<le> n \<Longrightarrow> n * 10 ^ 9 < 2 ^ 63 \<Longrightarrow>
   py_sleep (PyInt n) w =
     (Inr (), w\<lparr>clock := clock w + of_int n, events := events w @ [Sleep (of_int n)]\<rparr>)"
  by (simp add: py_sleep_def)

















section \<open>The aggregator\<close>

text \<open>
  Claim C2. For every list of commit URLs, the empty list too, and whatever the server
  answers, the list that \<^verbatim>\<open>get_commits_files\<close> returns is sorted in ascending
  lexicographic order and has no duplicate: consecutive entries are strictly increasing in
  the lexicographic order of their characters.
\<close>

theorem get_commits_files_sorted_distinct:
  "fst (get_commits_files srv urls config w) = Inr out \<Longrightarrow>
   sorted out \<and> distinct out
   \<and> sorted_wrt (\<lambda>a b. (a, b) \<in> lexord {(c, d). of_char c < (of_char d :: nat)}) out"
proof -
  assume "fst (get_commits_files srv urls config w) = Inr out"
  then obtain files where out: "out = sorted_list_of_set files"
    by (auto simp: get_commits_files_def split: prod.splits sum.splits)
  have "sorted_wrt (<) out"
    unfolding out by (rule strict_sorted_list_of_set)
  then have "sorted_wrt (\<lambda>a b. (a, b) \<in> lexord {(c, d). of_char c < (of_char d :: nat)}) out"
    by (rule sorted_wrt_mono_rel[rotated]) (simp add: list_less_def less_char_def)
  then show ?thesis
    unfolding out by simp
qed

theorem get_commits_files_sorted_distinct_witness:
  "fst (get_commits_files example_server [JStr ''u3'', JStr ''u1''] example_config example_world)
     = Inr [''a.py'', ''b.txt'', ''c.txt'']
   \<and> sorted [''a.py'', ''b.txt'', ''c.txt''] \<and> distinct [''a.py'', ''b.txt'', ''c.txt'']
   \<and> sorted_wrt (\<lambda>a b. (a, b) \<in> lexord {(c, d). of_char c < (of_char d :: nat)})
        [''a.py'', ''b.txt'', ''c.txt'']"
proof -
  have run: "fst (get_commits_files example_server [JStr ''u3'', JStr ''u1''] example_config
      example_world) = Inr [''a.py'', ''b.txt'', ''c.txt'']"
    by code_simp
  from get_commits_files_sorted_distinct[OF run] run show ?thesis by simp
qed

lemma get_commits_files_empty:
  "get_commits_files srv [] config w = (Inr [], w)"
  by (simp add: get_commits_files_def)

text \<open>
  When the result of resolving each URL is fixed, the loop succeeds exactly when every
  resolution does and \<^verbatim>\<open>time.sleep\<close> accepts the pause, and its set is the union of the resolved lists.
\<close>

lemma get_commits_files_loop_fixed:
  assumes "\<forall>u\<in>set urls. \<forall>w. fst (get_commit_files srv u config w) = res u"
  shows "fst (get_commits_files_loop srv config urls files w) = Inr S \<longleftrightarrow>
     (\<forall>u\<in>set urls. \<exists>fs. res u = Inr fs)
     \<and> (urls = [] \<or> 0 \<le> RATE_LIMIT_DELAY config \<and> RATE_LIMIT_DELAY config * 10 ^ 9 < 2 ^ 63)
     \<and> S = files \<union> (\<Union>u\<in>set urls. set (projr (res u)))"
  using assms
proof (induction urls arbitrary: files w)
  case Nil
  then show ?case by auto
next
  case (Cons u urls)
  define w1 where "w1 = snd (get_commit_files srv u config w)"
  have gcf: "get_commit_files srv u config w = (res u, w1)"
    using Cons.prems by (simp add: w1_def prod_eq_iff)
  show ?case
  proof (cases "res u")
    case (Inl e)
    then show ?thesis using gcf by simp
  next
    case (Inr fs)
    show ?thesis
    proof (cases "0 \<le> RATE_LIMIT_DELAY config \<and> RATE_LIMIT_DELAY config * 10 ^ 9 < 2 ^ 63")
      case True
      have "fst (get_commits_files_loop srv config (u # urls) files w) =
            fst (get_commits_files_loop srv config urls (files \<union> set fs)
              (w1\<lparr>clock := clock w1 + of_int (RATE_LIMIT_DELAY config),
                  events := events w1 @ [Sleep (of_int (RATE_LIMIT_DELAY config))]\<rparr>))"
        using gcf Inr True by (simp add: py_sleep_int)
      moreover have "\<forall>u\<in>set urls. \<forall>w. fst (get_commit_files srv u config w) = res u"
        using Cons.prems by simp
      ultimately show ?thesis
        using Cons.IH[of "files \<union> set fs"] Inr True by auto
    next
      case False
      then show ?thesis using gcf Inr by (auto simp: py_sleep_def)
    qed
  qed
qed

text \<open>
  Claim C5. When the resolver's result for each URL is fixed, \<^verbatim>\<open>get_commits_files\<close>
  returns a list on a permutation of the URLs exactly when it returns that list on the
  original sequence.
\<close>

theorem get_commits_files_permutation:
  assumes "\<forall>u\<in>set urls. \<forall>w. fst (get_commit_files srv u config w) = res u"
    and "mset urls' = mset urls"
  shows "fst (get_commits_files srv urls' config w') = Inr out \<longleftrightarrow>
         fst (get_commits_files srv urls config w) = Inr out"
proof -
  from assms(2) have set: "set urls' = set urls" by (rule mset_eq_setD)
  from assms(2) have nil: "urls' = [] \<longleftrightarrow> urls = []"
    by (metis mset_zero_iff)
  have fixed': "\<forall>u\<in>set urls'. \<forall>w. fst (get_commit_files srv u config w) = res u"
    using assms(1) set by simp
  have sorted: "fst (get_commits_files srv us config v) = Inr out \<longleftrightarrow>
      (\<exists>S. fst (get_commits_files_loop srv config us {} v) = Inr S \<and> out = sorted_list_of_set S)"
    for us v
    by (auto simp: get_commits_files_def split: prod.splits sum.splits)
  show ?thesis
    unfolding sorted get_commits_files_loop_fixed[OF assms(1)] get_commits_files_loop_fixed[OF fixed']
    by (simp add: set nil)
qed


theorem get_commits_files_permutation_witness:
  "(\<forall>w. fst (get_commit_files example_server (JStr ''u1'') example_config w) = Inr [''a.py''])
   \<and> (\<forall>w. fst (get_commit_files example_server (JStr ''u3'') example_config w)
          = Inr [''a.py'', ''c.txt'', ''b.txt''])
   \<and> mset [JStr ''u3'', JStr ''u1''] = mset [JStr ''u1'', JStr ''u3'']
   \<and> fst (get_commits_files example_server [JStr ''u1'', JStr ''u3''] example_config example_world)
        = Inr [''a.py'', ''b.txt'', ''c.txt'']
   \<and> fst (get_commits_files example_server [JStr ''u3'', JStr ''u1''] example_config example_world)
        = Inr [''a.py'', ''b.txt'', ''c.txt'']"
proof -
  let ?res = "\<lambda>u. if u = JStr ''u1'' then Inr [''a.py''] else Inr [''a.py'', ''c.txt'', ''b.txt'']"
  have fixed: "\<forall>u\<in>set [JStr ''u1'', JStr ''u3'']. \<forall>w.
      fst (get_commit_files example_server u example_config w) = ?res u"
    by (simp add: get_commit_files_def executor_defs example_defs endswith_def)
  have perm: "mset [JStr ''u3'', JStr ''u1''] = mset [JStr ''u1'', JStr ''u3'']"
    by simp
  have run: "fst (get_commits_files example_server [JStr ''u1'', JStr ''u3''] example_config
      example_world) = Inr [''a.py'', ''b.txt'', ''c.txt'']"
    by code_simp
  from get_commits_files_permutation[OF fixed perm, of example_world "[''a.py'', ''b.txt'', ''c.txt'']"
      example_world] run fixed perm
  show ?thesis by simp
qed

section \<open>The record of events\<close>

lemma commit_records_append:
  "commit_records (xs @ ys) = commit_records xs @ commit_records ys"
  by (induction xs rule: commit_records.induct) (auto split: option.splits json.splits)

lemma commit_records_member:
  "Get rq (Inr r) \<in> set evs \<Longrightarrow> json_body r = Some (JArr cs) \<Longrightarrow> set cs \<subseteq> set (commit_records evs)"
  by (induction evs rule: commit_records.induct) (auto split: option.splits json.splits)

lemma py_sleep_events: "py_sleep d w = (res, w') \<Longrightarrow> \<exists>new. events w' = events w @ new"
  by (auto simp: py_sleep_def split: if_splits)

lemma handle_rate_limit_events:
  "handle_rate_limit r w = (res, w') \<Longrightarrow> \<exists>new. events w' = events w @ new"
  by (auto simp: handle_rate_limit_def Let_def split: if_splits option.splits dest: py_sleep_events)

lemma make_request_try_events:
  assumes "make_request_try srv rq w = (res, w')"
  shows "\<exists>new. events w' = events w @ new \<and> (\<forall>r. res = Inr r \<longrightarrow> Get rq (Inr r) \<in> set new)"
proof (cases "srv w rq")
  case (Inl e)
  with assms show ?thesis
    by (auto simp: make_request_try_def requests_get_def)
next
  case (Inr r)
  obtain hres w2 where h: "handle_rate_limit r (w\<lparr>events := events w @ [Get rq (Inr r)]\<rparr>) = (hres, w2)"
    by (cases "handle_rate_limit r (w\<lparr>events := events w @ [Get rq (Inr r)]\<rparr>)")
  from handle_rate_limit_events[OF h] obtain new where
    new: "events w2 = (events w @ [Get rq (Inr r)]) @ new" by auto
  from assms Inr h have "w' = w2" and "\<forall>r'. res = Inr r' \<longrightarrow> r' = r"
    by (auto simp: make_request_try_def requests_get_def split: sum.splits)
  with new show ?thesis by auto
qed

lemma make_request_loop_events:
  "make_request_loop srv rq n a w = (res, w') \<Longrightarrow>
   \<exists>new. events w' = events w @ new \<and> (\<forall>r. res = Inr (Some r) \<longrightarrow> Get rq (Inr r) \<in> set new)"
proof (induction srv rq n a w rule: make_request_loop.induct)
  case (1 srv rq max_retries attempt w)
  show ?case
  proof (cases "attempt < max_retries")
    case False
    with "1.prems" show ?thesis by (auto simp: make_request_loop.simps)
  next
    case True
    obtain tres w1 where att: "make_request_try srv rq w = (tres, w1)"
      by (cases "make_request_try srv rq w")
    from make_request_try_events[OF att] obtain new1 where
      new1: "events w1 = events w @ new1" "\<forall>r. tres = Inr r \<longrightarrow> Get rq (Inr r) \<in> set new1"
      by auto
    show ?thesis
    proof (cases "\<exists>e. tres = Inl e \<and> is_RequestException e \<and> attempt \<noteq> max_retries - 1")
      case False
      with "1.prems" True att have "w' = w1" and "\<forall>r. res = Inr (Some r) \<longrightarrow> tres = Inr r"
        by (auto simp: make_request_loop.simps[of srv rq max_retries attempt w] split: sum.splits if_splits)
      with new1 show ?thesis by auto
    next
      case retry: True
      then obtain e where e: "tres = Inl e" "is_RequestException e" "attempt \<noteq> max_retries - 1"
        by auto
      obtain sres w2 where sl: "py_sleep (PyInt (2 ^ nat attempt)) w1 = (sres, w2)"
        by (cases "py_sleep (PyInt (2 ^ nat attempt)) w1")
      from py_sleep_events[OF sl] obtain new2 where new2: "events w2 = events w1 @ new2" by auto
      show ?thesis
      proof (cases sres)
        case (Inl e')
        with "1.prems" True att e sl have "res = Inl e'" and "w' = w2"
          by (simp_all add: make_request_loop.simps[of srv rq max_retries attempt w])
        with new1 new2 show ?thesis by auto
      next
        case (Inr u)
        with "1.prems" True att e sl
        have "make_request_loop srv rq max_retries (attempt + 1) w2 = (res, w')"
          by (simp add: make_request_loop.simps[of srv rq max_retries attempt w])
        from "1.IH"[OF True att[symmetric] e(1) e(2,3) sl[symmetric] Inr this]
        obtain new3 where
          "events w' = events w2 @ new3" "\<forall>r. res = Inr (Some r) \<longrightarrow> Get rq (Inr r) \<in> set new3"
          by auto
        with new1 new2 show ?thesis by auto
      qed
    qed
  qed
qed

lemma make_request_events:
  "make_request srv rq n w = (res, w') \<Longrightarrow>
   \<exists>new. events w' = events w @ new \<and> (\<forall>r. res = Inr (Some r) \<longrightarrow> Get rq (Inr r) \<in> set new)"
  unfolding make_request_def by (rule make_request_loop_events)

lemma from_owner_append:
  "from_owner owner xs u \<or> from_owner owner ys u \<Longrightarrow> from_owner owner (xs @ ys) u"
  by (auto simp: from_owner_def commit_records_append)

section \<open>The commit enumerator\<close>

text \<open>What the comprehension collects, and from which objects it can collect at all.\<close>

lemma owner_urls_member:
  "owner_urls owner commits = Inr us \<Longrightarrow> u \<in> set us \<Longrightarrow>
   \<exists>c\<in>set commits. py_getitem c ''url'' = Inr u
      \<and> (\<exists>a. py_getitem c ''author'' = Inr a \<and> py_getitem a ''login'' = Inr (JStr owner))"
proof (induction commits arbitrary: us)
  case Nil
  then show ?case by simp
next
  case (Cons c cs)
  from Cons.prems(1) obtain a l where a: "py_getitem c ''author'' = Inr a"
    and l: "py_getitem a ''login'' = Inr l"
    by (auto split: sum.splits)
  show ?case
  proof (cases "l = JStr owner")
    case False
    with Cons.prems a l have "owner_urls owner cs = Inr us" by simp
    from Cons.IH[OF this Cons.prems(2)] show ?thesis by auto
  next
    case True
    with Cons.prems(1) a l obtain v vs where v: "py_getitem c ''url'' = Inr v"
      and vs: "owner_urls owner cs = Inr vs" and us: "us = v # vs"
      by (auto split: sum.splits)
    show ?thesis
    proof (cases "u = v")
      case True
      with v a l \<open>l = JStr owner\<close> show ?thesis by auto
    next
      case False
      with Cons.prems(2) us have "u \<in> set vs" by simp
      from Cons.IH[OF vs this] show ?thesis by auto
    qed
  qed
qed

lemma owner_urls_strings:
  "owner_urls owner (map JStr ss) = Inr us \<Longrightarrow> us = []"
  by (cases ss) auto

lemma py_iter_records:
  assumes "py_iter data = Inr commits" and "owner_urls owner commits = Inr us" and "u \<in> set us"
  shows "data = JArr commits"
proof (cases data)
  case (JArr xs)
  with assms(1) show ?thesis by simp
next
  case (JObj kvs)
  with assms(1) have "commits = map JStr (map fst kvs)" by auto
  with owner_urls_strings[of owner "map fst kvs" us] assms(2,3) show ?thesis by simp
next
  case (JStr s)
  with assms(1) have "commits = map JStr (map (\<lambda>c. [c]) s)" by auto
  with owner_urls_strings[of owner "map (\<lambda>c. [c]) s" us] assms(2,3) show ?thesis by simp
qed (use assms(1) in auto)

lemma owner_urls_null_author:
  "c \<in> set commits \<Longrightarrow> py_getitem c ''author'' = Inr JNull \<Longrightarrow> \<exists>e. owner_urls owner commits = Inl e"
proof (induction commits)
  case Nil
  then show ?case by simp
next
  case (Cons x xs)
  show ?case
  proof (cases "x = c")
    case True
    with Cons.prems(2) show ?thesis by simp
  next
    case False
    with Cons.prems have "\<exists>e. owner_urls owner xs = Inl e" using Cons.IH by simp
    then show ?thesis by (auto split: sum.splits)
  qed
qed

text \<open>The invariant, by induction on the loop's fixed point.\<close>

lemma get_commit_urls_loop_owner:
  assumes "get_commit_urls_loop srv config hdrs params urls page w = Some y"
  shows "owner_invariant config urls w y"
proof (rule get_commit_urls_loop.raw_induct[
    where P = "\<lambda>srv config hdrs params urls page w y. owner_invariant config urls w y", OF _ assms])
  fix loop :: "server \<Rightarrow> Config \<Rightarrow> (string \<times> string) list \<Rightarrow> (string \<times> json) list \<Rightarrow> json list
      \<Rightarrow> int \<Rightarrow> world \<Rightarrow> ((error + json list) \<times> world) option"
  fix srv config hdrs params urls page w y
  assume IH: "\<And>s c h p us pg v z. loop s c h p us pg v = Some z \<Longrightarrow> owner_invariant c us v z"
  assume body: "(case make_request srv
             \<lparr>req_url = JStr (GITHUB_API_URL config), req_headers = hdrs,
              req_params = Some (AList.update ''page'' (JNum (of_int page)) params)\<rparr> 3 w of
        (Inl e, w1) \<Rightarrow> Some (Inl e, w1)
      | (Inr None, w1) \<Rightarrow> Some (Inl AttributeError, w1)
      | (Inr (Some response), w1) \<Rightarrow>
          (case json_body response of
             None \<Rightarrow> Some (Inl JSONDecodeError, w1)
           | Some data \<Rightarrow>
               if \<not> py_truthy data then Some (Inr urls, w1)
               else
                 (case py_iter data of
                    Inl e \<Rightarrow> Some (Inl e, w1)
                  | Inr commits \<Rightarrow>
                      (case owner_urls (GITHUB_REPO_OWNER config) commits of
                         Inl e \<Rightarrow> Some (Inl e, w1)
                       | Inr us \<Rightarrow>
                           (case py_sleep (PyInt (RATE_LIMIT_DELAY config)) w1 of
                              (Inl e, w2) \<Rightarrow> Some (Inl e, w2)
                            | (Inr _, w2) \<Rightarrow>
                                loop srv config hdrs
                                  (AList.update ''page'' (JNum (of_int page)) params)
                                  (urls @ us) (page + 1) w2))))) = Some y"
  let ?rq = "\<lparr>req_url = JStr (GITHUB_API_URL config), req_headers = hdrs,
              req_params = Some (AList.update ''page'' (JNum (of_int page)) params)\<rparr>"
  let ?owner = "GITHUB_REPO_OWNER config"
  obtain res w1 where mr: "make_request srv ?rq 3 w = (res, w1)"
    by (cases "make_request srv ?rq 3 w")
  from make_request_events[OF mr] obtain new1 where
    new1: "events w1 = events w @ new1" "\<forall>r. res = Inr (Some r) \<longrightarrow> Get ?rq (Inr r) \<in> set new1"
    by auto
  show "owner_invariant config urls w y"
    unfolding owner_invariant_def
  proof (intro allI impI)
    fix out w'
    assume y: "y = (Inr out, w')"
    from body mr y obtain response data where
      res: "res = Inr (Some response)" and data: "json_body response = Some data"
      by (auto split: sum.splits option.splits)
    show "\<exists>new. events w' = events w @ new
        \<and> (\<forall>u\<in>set out. u \<in> set urls \<or> from_owner ?owner new u)"
    proof (cases "py_truthy data")
      case False
      with body mr y res data have "out = urls" "w' = w1" by simp_all
      with new1(1) show ?thesis by auto
    next
      case True
      with body mr y res data obtain commits us sres w2 where
        commits: "py_iter data = Inr commits"
        and us: "owner_urls ?owner commits = Inr us"
        and sl: "py_sleep (PyInt (RATE_LIMIT_DELAY config)) w1 = (Inr sres, w2)"
        and rec: "loop srv config hdrs (AList.update ''page'' (JNum (of_int page)) params)
                    (urls @ us) (page + 1) w2 = Some y"
        by (auto split: sum.splits prod.splits)
      from py_sleep_events[OF sl] obtain news where news: "events w2 = events w1 @ news" by auto
      from IH[OF rec] y obtain new2 where
        new2: "events w' = events w2 @ new2"
        and mem: "\<forall>u\<in>set out. u \<in> set (urls @ us) \<or> from_owner ?owner new2 u"
        unfolding owner_invariant_def by auto
      have page_urls: "from_owner ?owner new1 u" if "u \<in> set us" for u
      proof -
        from py_iter_records[OF commits us that] have "data = JArr commits" .
        with commit_records_member[of ?rq response new1 commits] new1(2) res data
        have "set commits \<subseteq> set (commit_records new1)" by simp
        with owner_urls_member[OF us that] show ?thesis
          unfolding from_owner_def by blast
      qed
      have "u \<in> set urls \<or> from_owner ?owner (new1 @ news @ new2) u" if "u \<in> set out" for u
      proof -
        from mem that consider "u \<in> set urls" | "u \<in> set us" | "from_owner ?owner new2 u"
          by auto
        then show ?thesis
        proof cases
          case 1
          then show ?thesis by simp
        next
          case 2
          from page_urls[OF this] show ?thesis by (simp add: from_owner_append)
        next
          case 3
          then show ?thesis by (simp add: from_owner_append)
        qed
      qed
      moreover have "events w' = events w @ (new1 @ news @ new2)"
        using new1(1) news new2 by simp
      ultimately show ?thesis by blast
    qed
  qed
qed

lemma example_dates:
  "strftime_Ymd \<lparr>year = 2024, month = 3, day = 12\<rparr> = ''2024-03-12''"
  "strftime_Ymd \<lparr>year = 2026, month = 11, day = 4\<rparr> = ''2026-11-04''"
  by code_simp+

text \<open>
  Claim C6. Whatever the configuration and the pages served, every URL in a list that
  \<^verbatim>\<open>get_commit_urls\<close> returns is the \<^verbatim>\<open>url\<close> of a commit record, received
  during the call, whose author's login equals the configured owner, as the same string.
\<close>

theorem get_commit_urls_only_owner:
  "get_commit_urls srv config w = Some (Inr urls, w') \<Longrightarrow>
   \<exists>new. events w' = events w @ new
     \<and> (\<forall>u\<in>set urls. \<exists>c\<in>set (commit_records new). py_getitem c ''url'' = Inr u
          \<and> (\<exists>a. py_getitem c ''author'' = Inr a
                \<and> py_getitem a ''login'' = Inr (JStr (GITHUB_REPO_OWNER config))))"
  using get_commit_urls_loop_owner[of srv config _ _ "[]" 1 w "(Inr urls, w')"]
  unfolding get_commit_urls_def from_owner_def owner_invariant_def by simp

theorem get_commit_urls_only_owner_witness:
  "get_commit_urls example_server example_config example_world
     = Some (Inr [JStr ''u1'', JStr ''u3''],
         \<lparr>clock = 101,
          events =
            [Get (example_page_request 1)
               (Inr (ok_response (JArr [commit_record ''u1'' (author ''alice''),
                                        commit_record ''u2'' (author ''bob''),
                                        commit_record ''u3'' (author ''alice'')]))),
             Sleep 1,
             Get (example_page_request 2) (Inr (ok_response (JArr [])))]\<rparr>)
   \<and> (\<exists>new.
        [Get (example_page_request 1)
               (Inr (ok_response (JArr [commit_record ''u1'' (author ''alice''),
                                        commit_record ''u2'' (author ''bob''),
                                        commit_record ''u3'' (author ''alice'')]))),
             Sleep 1,
             Get (example_page_request 2) (Inr (ok_response (JArr [])))] = [] @ new
        \<and> (\<forall>u\<in>set [JStr ''u1'', JStr ''u3''].
              \<exists>c\<in>set (commit_records new). py_getitem c ''url'' = Inr u
                \<and> (\<exists>a. py_getitem c ''author'' = Inr a
                      \<and> py_getitem a ''login'' = Inr (JStr ''alice''))))"
proof -
  let ?w = "\<lparr>clock = 101,
          events =
            [Get (example_page_request 1)
               (Inr (ok_response (JArr [commit_record ''u1'' (author ''alice''),
                                        commit_record ''u2'' (author ''bob''),
                                        commit_record ''u3'' (author ''alice'')]))),
             Sleep 1,
             Get (example_page_request 2) (Inr (ok_response (JArr [])))]\<rparr>"
  have run: "get_commit_urls example_server example_config example_world
     = Some (Inr [JStr ''u1'', JStr ''u3''], ?w)"
    by (simp add: get_commit_urls_def get_commit_urls_loop.simps executor_defs py_sleep_def
        example_defs example_dates example_page_request_def)
  from get_commit_urls_only_owner[OF run] run show ?thesis
    by (simp add: example_world_def example_config_def)
qed

text \<open>
  Claim C9. In any iteration of the enumeration loop, when the page fetched is an array with
  a commit record whose \<^verbatim>\<open>author\<close> is null, the enumeration raises an error; the record
  is not skipped and no list is returned.
\<close>

theorem get_commit_urls_null_author:
  assumes "make_request srv
             \<lparr>req_url = JStr (GITHUB_API_URL config), req_headers = hdrs,
              req_params = Some (AList.update ''page'' (JNum (of_int page)) params)\<rparr> 3 w
           = (Inr (Some response), w1)"
    and "json_body response = Some (JArr commits)"
    and "c \<in> set commits"
    and "py_getitem c ''author'' = Inr JNull"
  shows "\<exists>e. get_commit_urls_loop srv config hdrs params urls page w = Some (Inl e, w1)"
proof -
  from owner_urls_null_author[OF assms(3,4)] obtain e where
    "owner_urls (GITHUB_REPO_OWNER config) commits = Inl e" by blast
  moreover from assms(3) have "commits \<noteq> []" by auto
  ultimately show ?thesis
    using assms(1,2) by (subst get_commit_urls_loop.simps) simp
qed

theorem get_commit_urls_null_author_witness:
  "(\<exists>e. get_commit_urls null_author_server example_config example_world
       = Some (Inl e,
           \<lparr>clock = 100,
            events = [Get (example_page_request 1) (null_author_server example_world
                        (example_page_request 1))]\<rparr>))
   \<and> fst (the (get_commit_urls null_author_server example_config example_world)) = Inl TypeError"
proof -
  let ?page = "[commit_record ''u1'' (author ''alice''), commit_record ''u2'' JNull]"
  let ?w1 = "\<lparr>clock = 100,
            events = [Get (example_page_request 1) (null_author_server example_world
                        (example_page_request 1))]\<rparr>"
  have req: "make_request null_author_server
             \<lparr>req_url = JStr (GITHUB_API_URL example_config),
              req_headers = [(''Authorization'', ''Bearer '' @ GITHUB_TOKEN example_config)],
              req_params = Some (AList.update ''page'' (JNum (of_int 1))
                [(''since'', JStr (strftime_Ymd (fst (DATE_RANGE example_config)))),
                 (''until'', JStr (strftime_Ymd (snd (DATE_RANGE example_config)))),
                 (''per_page'', JNum 100)])\<rparr> 3 example_world
           = (Inr (Some (ok_response (JArr ?page))), ?w1)"
    by (simp add: executor_defs null_author_server_def example_defs example_dates
        example_page_request_def)
  have body: "json_body (ok_response (JArr ?page)) = Some (JArr ?page)"
    by (simp add: ok_response_def)
  have mem: "commit_record ''u2'' JNull \<in> set ?page" by simp
  have null: "py_getitem (commit_record ''u2'' JNull) ''author'' = Inr JNull"
    by (simp add: commit_record_def)
  have run: "fst (the (get_commit_urls null_author_server example_config example_world))
      = Inl TypeError"
    by (simp add: get_commit_urls_def get_commit_urls_loop.simps executor_defs py_sleep_def
        null_author_server_def example_defs)
  from get_commit_urls_null_author[OF req body mem null, of "[]"] run show ?thesis
    by (simp add: get_commit_urls_def)
qed

section \<open>The branch field\<close>

lemma get_commit_urls_loop_branch_Some:
  assumes "get_commit_urls_loop srv config hdrs params urls page w = Some y"
  shows "get_commit_urls_loop srv (config\<lparr>GITHUB_REPO_BRANCH := b\<rparr>) hdrs params urls page w = Some y"
proof (rule get_commit_urls_loop.raw_induct[
    where P = "\<lambda>srv config hdrs params urls page w y.
      get_commit_urls_loop srv (config\<lparr>GITHUB_REPO_BRANCH := b\<rparr>) hdrs params urls page w = Some y",
    OF _ assms])
  fix loop :: "server \<Rightarrow> Config \<Rightarrow> (string \<times> string) list \<Rightarrow> (string \<times> json) list \<Rightarrow> json list
      \<Rightarrow> int \<Rightarrow> world \<Rightarrow> ((error + json list) \<times> world) option"
  fix srv config hdrs params urls page w y
  assume IH: "\<And>s c h p us pg v z. loop s c h p us pg v = Some z \<Longrightarrow>
      get_commit_urls_loop s (c\<lparr>GITHUB_REPO_BRANCH := b\<rparr>) h p us pg v = Some z"
  assume body: "(case make_request srv
             \<lparr>req_url = JStr (GITHUB_API_URL config), req_headers = hdrs,
              req_params = Some (AList.update ''page'' (JNum (of_int page)) params)\<rparr> 3 w of
        (Inl e, w1) \<Rightarrow> Some (Inl e, w1)
      | (Inr None, w1) \<Rightarrow> Some (Inl AttributeError, w1)
      | (Inr (Some response), w1) \<Rightarrow>
          (case json_body response of
             None \<Rightarrow> Some (Inl JSONDecodeError, w1)
           | Some data \<Rightarrow>
               if \<not> py_truthy data then Some (Inr urls, w1)
               else
                 (case py_iter data of
                    Inl e \<Rightarrow> Some (Inl e, w1)
                  | Inr commits \<Rightarrow>
                      (case owner_urls (GITHUB_REPO_OWNER config) commits of
                         Inl e \<Rightarrow> Some (Inl e, w1)
                       | Inr us \<Rightarrow>
                           (case py_sleep (PyInt (RATE_LIMIT_DELAY config)) w1 of
                              (Inl e, w2) \<Rightarrow> Some (Inl e, w2)
                            | (Inr _, w2) \<Rightarrow>
                                loop srv config hdrs
                                  (AList.update ''page'' (JNum (of_int page)) params)
                                  (urls @ us) (page + 1) w2))))) = Some y"
  show "get_commit_urls_loop srv (config\<lparr>GITHUB_REPO_BRANCH := b\<rparr>) hdrs params urls page w = Some y"
    using body
    by (subst get_commit_urls_loop.simps)
      (auto split: prod.splits sum.splits option.splits if_splits intro: IH)
qed

lemma get_commit_urls_loop_branch:
  "get_commit_urls_loop srv (config\<lparr>GITHUB_REPO_BRANCH := b\<rparr>) hdrs params urls page w =
   get_commit_urls_loop srv config hdrs params urls page w"
proof (cases "get_commit_urls_loop srv config hdrs params urls page w")
  case (Some y)
  from get_commit_urls_loop_branch_Some[OF this] Some show ?thesis by simp
next
  case None
  show ?thesis
  proof (cases "get_commit_urls_loop srv (config\<lparr>GITHUB_REPO_BRANCH := b\<rparr>) hdrs params urls page w")
    case inner: None
    with None show ?thesis by simp
  next
    case (Some y)
    from get_commit_urls_loop_branch_Some[OF this, of "GITHUB_REPO_BRANCH config"] None
    show ?thesis by simp
  qed
qed

lemma get_commit_files_branch:
  "get_commit_files srv url (config\<lparr>GITHUB_REPO_BRANCH := b\<rparr>) w = get_commit_files srv url config w"
  by (simp add: get_commit_files_def)

lemma get_commits_files_loop_branch:
  "get_commits_files_loop srv (config\<lparr>GITHUB_REPO_BRANCH := b\<rparr>) urls files w =
   get_commits_files_loop srv config urls files w"
  by (induction urls arbitrary: files w)
    (auto simp: get_commit_files_branch split: prod.splits sum.splits)

lemma get_commits_files_branch:
  "get_commits_files srv urls (config\<lparr>GITHUB_REPO_BRANCH := b\<rparr>) w =
   get_commits_files srv urls config w"
  by (simp add: get_commits_files_def get_commits_files_loop_branch)

lemma get_commit_urls_branch:
  "get_commit_urls srv (config\<lparr>GITHUB_REPO_BRANCH := b\<rparr>) w = get_commit_urls srv config w"
  by (simp add: get_commit_urls_def get_commit_urls_loop_branch)

text \<open>
  Claim C10. Two runs of the pipeline whose configurations differ only in the branch end
  alike: the same result and the same world, that is the same requests with the same
  parameters and the same pauses, in the same order; and one run does not return exactly
  when the other does not.
\<close>

theorem pipeline_ignores_branch:
  "pipeline srv (config\<lparr>GITHUB_REPO_BRANCH := b\<rparr>) w = pipeline srv config w"
  by (auto simp: pipeline_def get_commit_urls_branch get_commits_files_branch
      split: option.splits prod.splits sum.splits)

theorem pipeline_ignores_branch_witness:
  "pipeline example_server (example_config\<lparr>GITHUB_REPO_BRANCH := ''dev''\<rparr>) example_world
     = pipeline example_server example_config example_world
   \<and> map_option fst (pipeline example_server example_config example_world)
     = Some (Inr [''a.py'', ''b.txt'', ''c.txt''])
   \<and> GITHUB_REPO_BRANCH (example_config\<lparr>GITHUB_REPO_BRANCH := ''dev''\<rparr>)
     \<noteq> GITHUB_REPO_BRANCH example_config"
proof -
  have run: "map_option fst (pipeline example_server example_config example_world)
     = Some (Inr [''a.py'', ''b.txt'', ''c.txt''])"
    by code_simp
  from pipeline_ignores_branch[where srv = example_server and config = example_config
      and b = "''dev''" and w = example_world] run
  show ?thesis by (simp add: example_config_def)
qed

end
